theory Spec2Isabelle
  imports Main
begin

section \<open>The socket handlers of server.js\<close>

text \<open>
  The development embeds the Socket.io part of \<^verbatim>\<open>src/server.js\<close> (lines 270 to 352)
  together with the two things it touches: the global \<^verbatim>\<open>onlineUsers\<close> map (line 88)
  and the \<^verbatim>\<open>messages\<close> table (lines 60 to 69).

  \<^item> A user id is an integer (\<^verbatim>\<open>users.id INTEGER PRIMARY KEY\<close>); a socket id is a string.
  \<^item> A payload field (\<^verbatim>\<open>message\<close>, \<^verbatim>\<open>imageData\<close>) is \<open>string option\<close>: \<open>None\<close> stands for
    a field the client left out (\<^verbatim>\<open>undefined\<close> or \<^verbatim>\<open>null\<close>), which SQLite stores as NULL.
  \<^item> The \<^verbatim>\<open>data\<close> argument of \<^verbatim>\<open>send_message\<close>, \<^verbatim>\<open>send_image\<close> and \<^verbatim>\<open>typing\<close> is an
    option: \<open>None\<close> is an event that carries no payload (\<^verbatim>\<open>undefined\<close> or \<^verbatim>\<open>null\<close>), on
    which destructuring and \<^verbatim>\<open>data.receiverId\<close> throw a TypeError; \<open>Some\<close> is a payload
    object.
  \<^item> server.js has no \<^verbatim>\<open>try\<close> and installs no handler for uncaught exceptions, so a
    throw in a handler ends the Node process.
\<close>

type_synonym user_id = int
type_synonym socket_id = string
type_synonym timestamp = string

subsection \<open>The JavaScript Map \<^verbatim>\<open>onlineUsers\<close>\<close>

text \<open>
  A JavaScript \<^verbatim>\<open>Map\<close> iterates in insertion order, \<^verbatim>\<open>set\<close> on a key that is present
  replaces the value where the entry stands, and \<^verbatim>\<open>set\<close> on a new key appends the entry.
  The disconnect handler depends on that order, so the map is the list of its entries.
\<close>

type_synonym ('k, 'v) js_map = "('k \<times> 'v) list"

fun Map_set :: "'k \<Rightarrow> 'v \<Rightarrow> ('k, 'v) js_map \<Rightarrow> ('k, 'v) js_map" where
  "Map_set k v [] = [(k, v)]"
| "Map_set k v ((k', v') # es) =
     (if k' = k then (k, v) # es else (k', v') # Map_set k v es)"

fun Map_get :: "'k \<Rightarrow> ('k, 'v) js_map \<Rightarrow> 'v option" where
  "Map_get k [] = None"
| "Map_get k ((k', v') # es) = (if k' = k then Some v' else Map_get k es)"

fun Map_delete :: "'k \<Rightarrow> ('k, 'v) js_map \<Rightarrow> ('k, 'v) js_map" where
  "Map_delete k [] = []"
| "Map_delete k ((k', v') # es) =
     (if k' = k then Map_delete k es else (k', v') # Map_delete k es)"

definition Map_keys :: "('k, 'v) js_map \<Rightarrow> 'k list" where
  "Map_keys m = map fst m"

definition Map_entries :: "('k, 'v) js_map \<Rightarrow> ('k \<times> 'v) list" where
  "Map_entries m = m"

text \<open>The keys of a \<^verbatim>\<open>Map\<close> are pairwise different.\<close>

definition Map_wf :: "('k, 'v) js_map \<Rightarrow> bool" where
  "Map_wf m = distinct (map fst m)"

text \<open>
  \<^verbatim>\<open>if (receiverSocket)\<close> tests the result of \<^verbatim>\<open>onlineUsers.get\<close>: \<^verbatim>\<open>undefined\<close> and the
  empty string are falsy, every other string is truthy.
\<close>

fun truthy :: "socket_id option \<Rightarrow> bool" where
  "truthy None = False"
| "truthy (Some h) = (h \<noteq> [])"

subsection \<open>The messages table\<close>

text \<open>
  \<^verbatim>\<open>id\<close> is AUTOINCREMENT, \<^verbatim>\<open>created_at\<close> defaults to CURRENT\_TIMESTAMP, and a column
  the INSERT statement does not name is NULL.
\<close>

record message_row =
  row_id :: nat
  sender_id :: user_id
  receiver_id :: user_id
  message :: "string option"
  image_data :: "string option"
  created_at :: nat

record database =
  messages :: "message_row list"
  sqlite_sequence :: nat

datatype db_error = SqliteError string

text \<open>
  What the store answers to one \<^verbatim>\<open>db.run\<close>: it either fails, and the callback gets the
  error, or it executes the statement at some clock value, and the callback gets \<^verbatim>\<open>null\<close>.
\<close>

datatype db_outcome = DbFail db_error | DbOk nat

text \<open>\<^verbatim>\<open>INSERT INTO messages (sender_id, receiver_id, message) VALUES (?, ?, ?)\<close>\<close>

definition insert_message ::
  "user_id \<Rightarrow> user_id \<Rightarrow> string option \<Rightarrow> nat \<Rightarrow> database \<Rightarrow> database" where
  "insert_message sid rid msg now d =
     \<lparr>messages = messages d @
        [\<lparr>row_id = Suc (sqlite_sequence d), sender_id = sid, receiver_id = rid,
          message = msg, image_data = None, created_at = now\<rparr>],
      sqlite_sequence = Suc (sqlite_sequence d)\<rparr>"

text \<open>\<^verbatim>\<open>INSERT INTO messages (sender_id, receiver_id, image_data) VALUES (?, ?, ?)\<close>\<close>

definition insert_image ::
  "user_id \<Rightarrow> user_id \<Rightarrow> string option \<Rightarrow> nat \<Rightarrow> database \<Rightarrow> database" where
  "insert_image sid rid img now d =
     \<lparr>messages = messages d @
        [\<lparr>row_id = Suc (sqlite_sequence d), sender_id = sid, receiver_id = rid,
          message = None, image_data = img, created_at = now\<rparr>],
      sqlite_sequence = Suc (sqlite_sequence d)\<rparr>"

subsection \<open>Events in, effects out\<close>

text \<open>
  The payload object of a \<^verbatim>\<open>send_message\<close> event has the four properties the handler
  destructures and may have others, which the handler never reads. One of them is kept,
  \<^verbatim>\<open>imageData\<close>, so that a payload with both a message and an image can be written down;
  likewise \<^verbatim>\<open>message\<close> for a \<^verbatim>\<open>send_image\<close> event.
\<close>

record msg_data =
  md_senderId :: user_id
  md_receiverId :: user_id
  md_message :: "string option"
  md_timestamp :: timestamp
  md_imageData :: "string option"

record img_data =
  im_senderId :: user_id
  im_receiverId :: user_id
  im_imageData :: "string option"
  im_timestamp :: timestamp
  im_message :: "string option"

record typing_data =
  ty_senderId :: user_id
  ty_receiverId :: user_id

datatype out_event =
    Online_users "user_id list"
  | Receive_message user_id "string option" timestamp
  | Receive_image user_id "string option" timestamp
  | User_typing user_id

datatype log_line =
    New_user_connected socket_id
  | Error_saving_message db_error
  | Error_saving_image db_error
  | Message_saved_for_offline_user user_id
  | Image_saved_for_offline_user user_id
  | User_disconnected socket_id

text \<open>
  \<open>Io_emit\<close> is \<^verbatim>\<open>io.emit\<close> (to every connected socket), \<open>Io_to_emit h\<close> is
  \<^verbatim>\<open>io.to(h).emit\<close> (to the socket whose id is \<open>h\<close>), \<open>Console_log\<close> is \<^verbatim>\<open>console.log\<close>.
\<close>

datatype effect =
    Io_emit out_event
  | Io_to_emit socket_id out_event
  | Console_log log_line

text \<open>
  A \<^verbatim>\<open>db.run\<close> that has been issued and whose callback has not run yet. The callback is a
  closure over the handler's socket and over the destructured \<^verbatim>\<open>data\<close>.
\<close>

datatype pending_run =
    Run_insert_message socket_id msg_data
  | Run_insert_image socket_id img_data

text \<open>What a handler can throw.\<close>

datatype js_error = TypeError

text \<open>
  The state of the server process. \<open>uncaught\<close> is set when a handler has thrown: the
  process has ended and handles nothing any more.
\<close>

record state =
  onlineUsers :: "(user_id, socket_id) js_map"
  db :: database
  pending :: "pending_run list"
  uncaught :: "js_error option"

definition init :: state where
  "init = \<lparr>onlineUsers = [], db = \<lparr>messages = [], sqlite_sequence = 0\<rparr>, pending = [],
           uncaught = None\<rparr>"

subsection \<open>The handlers\<close>

text \<open>\<^verbatim>\<open>io.on('connection', ...)\<close>, line 272.\<close>

definition connection :: "socket_id \<Rightarrow> state \<Rightarrow> state \<times> effect list" where
  "connection sock s = (s, [Console_log (New_user_connected sock)])"

text \<open>\<^verbatim>\<open>socket.on('user_login', ...)\<close>, lines 274 to 277.\<close>

definition user_login :: "socket_id \<Rightarrow> user_id \<Rightarrow> state \<Rightarrow> state \<times> effect list" where
  "user_login sock userId s =
     (let m = Map_set userId sock (onlineUsers s)
      in (s\<lparr>onlineUsers := m\<rparr>, [Io_emit (Online_users (Map_keys m))]))"

text \<open>
  \<^verbatim>\<open>socket.on('send_message', ...)\<close>, lines 279 to 305, up to the call of \<^verbatim>\<open>db.run\<close>:
  the destructuring of line 280 throws when there is no payload; otherwise the statement
  is handed to the store and the handler returns.
\<close>

definition send_message ::
  "socket_id \<Rightarrow> msg_data option \<Rightarrow> state \<Rightarrow> js_error + state \<times> effect list" where
  "send_message sock data s =
     (case data of
        None \<Rightarrow> Inl TypeError
      | Some d \<Rightarrow> Inr (s\<lparr>pending := pending s @ [Run_insert_message sock d]\<rparr>, []))"

text \<open>The callback of that \<^verbatim>\<open>db.run\<close>, lines 286 to 303, run with the registry of its own moment.\<close>

definition send_message_callback ::
  "msg_data \<Rightarrow> db_error option \<Rightarrow> (user_id, socket_id) js_map \<Rightarrow> effect list" where
  "send_message_callback data err m =
     (case err of
        Some e \<Rightarrow> [Console_log (Error_saving_message e)]
      | None \<Rightarrow>
          (let receiverSocket = Map_get (md_receiverId data) m
           in if truthy receiverSocket
              then [Io_to_emit (the receiverSocket)
                      (Receive_message (md_senderId data) (md_message data) (md_timestamp data))]
              else [Console_log (Message_saved_for_offline_user (md_receiverId data))]))"

text \<open>\<^verbatim>\<open>socket.on('send_image', ...)\<close>, lines 307 to 333, and its callback, lines 314 to 331.\<close>

definition send_image ::
  "socket_id \<Rightarrow> img_data option \<Rightarrow> state \<Rightarrow> js_error + state \<times> effect list" where
  "send_image sock data s =
     (case data of
        None \<Rightarrow> Inl TypeError
      | Some d \<Rightarrow> Inr (s\<lparr>pending := pending s @ [Run_insert_image sock d]\<rparr>, []))"

definition send_image_callback ::
  "img_data \<Rightarrow> db_error option \<Rightarrow> (user_id, socket_id) js_map \<Rightarrow> effect list" where
  "send_image_callback data err m =
     (case err of
        Some e \<Rightarrow> [Console_log (Error_saving_image e)]
      | None \<Rightarrow>
          (let receiverSocket = Map_get (im_receiverId data) m
           in if truthy receiverSocket
              then [Io_to_emit (the receiverSocket)
                      (Receive_image (im_senderId data) (im_imageData data) (im_timestamp data))]
              else [Console_log (Image_saved_for_offline_user (im_receiverId data))]))"

text \<open>
  The store runs one issued statement and then its callback: on failure the table is
  untouched and the callback gets the error, on success the row is in the table before the
  callback starts. Statements may complete in any order, so a completion names the
  pending statement by its position; a completion that names none does nothing. Other
  events may come between the handler and the completion, and the callback reads the
  registry as it is when the completion happens.
\<close>

fun db_run :: "pending_run \<Rightarrow> db_outcome \<Rightarrow> database \<Rightarrow> database \<times> db_error option" where
  "db_run job (DbFail e) d = (d, Some e)"
| "db_run (Run_insert_message sock data) (DbOk now) d =
     (insert_message (md_senderId data) (md_receiverId data) (md_message data) now d, None)"
| "db_run (Run_insert_image sock data) (DbOk now) d =
     (insert_image (im_senderId data) (im_receiverId data) (im_imageData data) now d, None)"

fun callback :: "pending_run \<Rightarrow> db_error option \<Rightarrow> (user_id, socket_id) js_map \<Rightarrow> effect list" where
  "callback (Run_insert_message sock data) err m = send_message_callback data err m"
| "callback (Run_insert_image sock data) err m = send_image_callback data err m"

definition db_complete :: "nat \<Rightarrow> db_outcome \<Rightarrow> state \<Rightarrow> state \<times> effect list" where
  "db_complete i outcome s =
     (if i < length (pending s)
      then (let job = pending s ! i;
                (d, err) = db_run job outcome (db s)
            in (s\<lparr>db := d, pending := take i (pending s) @ drop (Suc i) (pending s)\<rparr>,
                callback job err (onlineUsers s)))
      else (s, []))"

text \<open>
  \<^verbatim>\<open>socket.on('typing', ...)\<close>, lines 335 to 340. \<^verbatim>\<open>data.receiverId\<close> of line 336 throws
  when there is no payload.
\<close>

definition typing ::
  "socket_id \<Rightarrow> typing_data option \<Rightarrow> state \<Rightarrow> js_error + state \<times> effect list" where
  "typing sock data s =
     (case data of
        None \<Rightarrow> Inl TypeError
      | Some d \<Rightarrow>
          (let receiverSocket = Map_get (ty_receiverId d) (onlineUsers s)
           in if truthy receiverSocket
              then Inr (s, [Io_to_emit (the receiverSocket) (User_typing (ty_senderId d))])
              else Inr (s, [])))"

text \<open>
  \<^verbatim>\<open>socket.on('disconnect', ...)\<close>, lines 342 to 351. The loop walks the entries in
  insertion order, deletes the key of the first entry whose value is the socket's id, and
  breaks.
\<close>

fun disconnect_loop ::
  "socket_id \<Rightarrow> (user_id \<times> socket_id) list \<Rightarrow> (user_id, socket_id) js_map \<Rightarrow>
   (user_id, socket_id) js_map" where
  "disconnect_loop sock [] m = m"
| "disconnect_loop sock ((userId, socketId) # rest) m =
     (if socketId = sock then Map_delete userId m else disconnect_loop sock rest m)"

definition disconnect :: "socket_id \<Rightarrow> state \<Rightarrow> state \<times> effect list" where
  "disconnect sock s =
     (let m = disconnect_loop sock (Map_entries (onlineUsers s)) (onlineUsers s)
      in (s\<lparr>onlineUsers := m\<rparr>,
          [Io_emit (Online_users (Map_keys m)), Console_log (User_disconnected sock)]))"

subsection \<open>The event loop\<close>

datatype event =
    Connection socket_id
  | User_login socket_id user_id
  | Send_message socket_id "msg_data option"
  | Send_image socket_id "img_data option"
  | Typing socket_id "typing_data option"
  | Disconnect socket_id
  | Db_complete nat db_outcome

fun dispatch :: "event \<Rightarrow> state \<Rightarrow> js_error + state \<times> effect list" where
  "dispatch (Connection sock) s = Inr (connection sock s)"
| "dispatch (User_login sock userId) s = Inr (user_login sock userId s)"
| "dispatch (Send_message sock data) s = send_message sock data s"
| "dispatch (Send_image sock data) s = send_image sock data s"
| "dispatch (Typing sock data) s = typing sock data s"
| "dispatch (Disconnect sock) s = Inr (disconnect sock s)"
| "dispatch (Db_complete i outcome) s = Inr (db_complete i outcome s)"

text \<open>
  One turn of the event loop. A process that has ended handles nothing; a handler that
  throws ends the process, with the state as the throw left it and nothing emitted.
\<close>

definition step :: "event \<Rightarrow> state \<Rightarrow> state \<times> effect list" where
  "step e s =
     (case uncaught s of
        Some err \<Rightarrow> (s, [])
      | None \<Rightarrow>
          (case dispatch e s of
             Inl err \<Rightarrow> (s\<lparr>uncaught := Some err\<rparr>, [])
           | Inr r \<Rightarrow> r))"

fun run :: "event list \<Rightarrow> state \<Rightarrow> state \<times> effect list" where
  "run [] s = (s, [])"
| "run (e # es) s =
     (let (s1, out1) = step e s; (s2, out2) = run es s1 in (s2, out1 @ out2))"

subsection \<open>Vocabulary of the properties\<close>

text \<open>
  Socket.io gives every connection a non-empty id, so every handle the registry can hold
  passes the truthiness test of the handlers.
\<close>

definition handles_truthy :: "(user_id, socket_id) js_map \<Rightarrow> bool" where
  "handles_truthy m = list_all (\<lambda>(u, h). h \<noteq> []) m"

fun event_ok :: "event \<Rightarrow> bool" where
  "event_ok (User_login sock userId) = (sock \<noteq> [])"
| "event_ok e = True"

text \<open>The identity of the first entry, in insertion order, whose handle is \<open>sock\<close>.\<close>

definition first_bound :: "socket_id \<Rightarrow> (user_id, socket_id) js_map \<Rightarrow> user_id option" where
  "first_bound sock m = map_option fst (find (\<lambda>(u, h). h = sock) m)"

text \<open>An effect reaches a socket when it is a broadcast or is addressed to that socket.\<close>

fun reaches :: "socket_id \<Rightarrow> effect \<Rightarrow> bool" where
  "reaches sock (Io_emit ev) = True"
| "reaches sock (Io_to_emit h ev) = (h = sock)"
| "reaches sock (Console_log l) = False"

definition reported_to :: "socket_id \<Rightarrow> effect list \<Rightarrow> bool" where
  "reported_to sock effs = list_ex (reaches sock) effs"

text \<open>The events that change what the registry holds for \<open>u\<close> bound to \<open>h\<close>.\<close>

fun rebinds :: "user_id \<Rightarrow> socket_id \<Rightarrow> event \<Rightarrow> bool" where
  "rebinds u h (User_login sock userId) = (userId = u)"
| "rebinds u h (Disconnect sock) = (sock = h)"
| "rebinds u h e = False"

text \<open>Delivery events, and the table row a delivery event is the push of.\<close>

fun delivery_event :: "out_event \<Rightarrow> bool" where
  "delivery_event (Receive_message sid msg ts) = True"
| "delivery_event (Receive_image sid img ts) = True"
| "delivery_event ev = False"

fun is_delivery :: "effect \<Rightarrow> bool" where
  "is_delivery (Io_emit ev) = delivery_event ev"
| "is_delivery (Io_to_emit h ev) = delivery_event ev"
| "is_delivery (Console_log l) = False"

fun row_of_event :: "out_event \<Rightarrow> message_row \<Rightarrow> bool" where
  "row_of_event (Receive_message sid msg ts) r =
     (sender_id r = sid \<and> message r = msg \<and> image_data r = None)"
| "row_of_event (Receive_image sid img ts) r =
     (sender_id r = sid \<and> image_data r = img \<and> message r = None)"
| "row_of_event ev r = False"

fun delivers :: "effect \<Rightarrow> message_row \<Rightarrow> bool" where
  "delivers (Io_to_emit h ev) r = row_of_event ev r"
| "delivers e r = False"

definition deliveries_persisted :: "effect list \<Rightarrow> message_row list \<Rightarrow> bool" where
  "deliveries_persisted effs rows =
     list_all (\<lambda>e. is_delivery e \<longrightarrow> list_ex (delivers e) rows) effs"

text \<open>The rows a run has added to the table.\<close>

definition new_rows :: "state \<Rightarrow> state \<Rightarrow> message_row list" where
  "new_rows s s' = drop (length (messages (db s))) (messages (db s'))"

section \<open>Facts about the registry\<close>

lemma Map_get_set: "Map_get k' (Map_set k v m) = (if k' = k then Some v else Map_get k' m)"
  by (induction m) auto

lemma Map_get_delete: "Map_get k' (Map_delete k m) = (if k' = k then None else Map_get k' m)"
  by (induction m) auto

lemma Map_get_eq_map_of: "Map_get k m = map_of m k"
  by (induction m) auto

lemma Map_get_None_iff: "Map_get k m = None \<longleftrightarrow> k \<notin> set (Map_keys m)"
  by (simp add: Map_get_eq_map_of map_of_eq_None_iff Map_keys_def)

lemma Map_get_in_set: "Map_get k m = Some v \<Longrightarrow> (k, v) \<in> set m"
  by (induction m) (auto split: if_splits)

lemma Map_wf_get: "Map_wf m \<Longrightarrow> (k, v) \<in> set m \<Longrightarrow> Map_get k m = Some v"
  by (simp add: Map_get_eq_map_of Map_wf_def)

lemma in_keys_iff: "k \<in> set (Map_keys m) \<longleftrightarrow> Map_get k m \<noteq> None"
  by (simp add: Map_get_None_iff)

lemma set_keys_Map_set: "set (Map_keys (Map_set k v m)) = insert k (set (Map_keys m))"
  by (auto simp: in_keys_iff Map_get_set split: if_splits)

lemma set_keys_Map_delete: "set (Map_keys (Map_delete k m)) = set (Map_keys m) - {k}"
  by (auto simp: in_keys_iff Map_get_delete split: if_splits)

lemma Map_wf_set: "Map_wf m \<Longrightarrow> Map_wf (Map_set k v m)"
proof (induction m)
  case Nil
  then show ?case by (simp add: Map_wf_def)
next
  case (Cons e m)
  obtain k' v' where e: "e = (k', v')" by (cases e)
  from Cons.prems have wf: "Map_wf m" and fresh: "k' \<notin> set (Map_keys m)"
    by (simp_all add: Map_wf_def Map_keys_def e)
  show ?case
  proof (cases "k' = k")
    case True
    with Cons.prems show ?thesis by (simp add: e Map_wf_def)
  next
    case False
    have "k' \<notin> set (Map_keys (Map_set k v m))"
      using fresh False by (simp add: set_keys_Map_set)
    with Cons.IH [OF wf] False show ?thesis
      by (simp add: e Map_wf_def Map_keys_def)
  qed
qed

lemma Map_wf_delete: "Map_wf m \<Longrightarrow> Map_wf (Map_delete k m)"
proof (induction m)
  case Nil
  then show ?case by simp
next
  case (Cons e m)
  obtain k' v' where e: "e = (k', v')" by (cases e)
  from Cons.prems have wf: "Map_wf m" and fresh: "k' \<notin> set (Map_keys m)"
    by (simp_all add: Map_wf_def Map_keys_def e)
  have "k' \<notin> set (Map_keys (Map_delete k m))"
    using fresh by (simp add: set_keys_Map_delete)
  with Cons.IH [OF wf] show ?case
    by (simp add: e Map_wf_def Map_keys_def)
qed

lemma Map_delete_absent: "k \<notin> set (Map_keys m) \<Longrightarrow> Map_delete k m = m"
  by (induction m) (auto simp: Map_keys_def)

lemma Map_delete_split:
  "Map_wf (pre @ (k, v) # post) \<Longrightarrow> Map_delete k (pre @ (k, v) # post) = pre @ post"
  by (induction pre) (auto simp: Map_wf_def Map_delete_absent Map_keys_def)

lemma length_Map_delete: "Map_wf m \<Longrightarrow> length m \<le> Suc (length (Map_delete k m))"
  by (induction m) (auto simp: Map_wf_def Map_delete_absent Map_keys_def)

lemma disconnect_loop_first_bound:
  "disconnect_loop sock es m =
     (case first_bound sock es of None \<Rightarrow> m | Some u \<Rightarrow> Map_delete u m)"
  by (induction sock es m rule: disconnect_loop.induct) (auto simp: first_bound_def)

lemma first_bound_None_iff: "first_bound sock m = None \<longleftrightarrow> sock \<notin> snd ` set m"
  by (induction m) (auto simp: first_bound_def)

lemma first_bound_Some: "first_bound sock m = Some u \<Longrightarrow> (u, sock) \<in> set m"
  by (induction m) (auto simp: first_bound_def split: if_splits)

lemma truthy_get: "handles_truthy m \<Longrightarrow> truthy (Map_get k m) = (Map_get k m \<noteq> None)"
  by (induction m) (auto simp: handles_truthy_def split: if_splits)

section \<open>Facts about the handlers\<close>

lemma db_complete_message:
  assumes "i < length (pending s)" and "pending s ! i = Run_insert_message sock md"
  shows "db_complete i (DbOk now) s =
           (s\<lparr>db := insert_message (md_senderId md) (md_receiverId md) (md_message md) now (db s),
              pending := take i (pending s) @ drop (Suc i) (pending s)\<rparr>,
            send_message_callback md None (onlineUsers s))"
  using assms by (simp add: db_complete_def)

lemma db_complete_image:
  assumes "i < length (pending s)" and "pending s ! i = Run_insert_image sock im"
  shows "db_complete i (DbOk now) s =
           (s\<lparr>db := insert_image (im_senderId im) (im_receiverId im) (im_imageData im) now (db s),
              pending := take i (pending s) @ drop (Suc i) (pending s)\<rparr>,
            send_image_callback im None (onlineUsers s))"
  using assms by (simp add: db_complete_def)

lemma db_complete_fail:
  assumes "i < length (pending s)"
  shows "db_complete i (DbFail e) s =
           (s\<lparr>pending := take i (pending s) @ drop (Suc i) (pending s)\<rparr>,
            callback (pending s ! i) (Some e) (onlineUsers s))"
  using assms by (simp add: db_complete_def)

lemma send_message_callback_ok:
  assumes "handles_truthy m"
  shows "send_message_callback md None m =
     (case Map_get (md_receiverId md) m of
        Some h \<Rightarrow> [Io_to_emit h (Receive_message (md_senderId md) (md_message md) (md_timestamp md))]
      | None \<Rightarrow> [Console_log (Message_saved_for_offline_user (md_receiverId md))])"
  using truthy_get [OF assms, of "md_receiverId md"]
  by (auto simp: send_message_callback_def split: option.splits)

lemma send_image_callback_ok:
  assumes "handles_truthy m"
  shows "send_image_callback im None m =
     (case Map_get (im_receiverId im) m of
        Some h \<Rightarrow> [Io_to_emit h (Receive_image (im_senderId im) (im_imageData im) (im_timestamp im))]
      | None \<Rightarrow> [Console_log (Image_saved_for_offline_user (im_receiverId im))])"
  using truthy_get [OF assms, of "im_receiverId im"]
  by (auto simp: send_image_callback_def split: option.splits)

lemma first_bound_split:
  "sock \<notin> snd ` set pre \<Longrightarrow> first_bound sock (pre @ (u, sock) # post) = Some u"
  by (induction pre) (auto simp: first_bound_def)

lemma disconnect_registry:
  "onlineUsers (fst (disconnect sock s)) =
     (case first_bound sock (onlineUsers s) of
        None \<Rightarrow> onlineUsers s
      | Some u \<Rightarrow> Map_delete u (onlineUsers s))"
  by (simp add: disconnect_def disconnect_loop_first_bound Map_entries_def Let_def)

lemma disconnect_effects:
  "snd (disconnect sock s) =
     [Io_emit (Online_users (Map_keys (onlineUsers (fst (disconnect sock s))))),
      Console_log (User_disconnected sock)]"
  by (simp add: disconnect_def Let_def)

lemma db_complete_registry: "onlineUsers (fst (db_complete i outcome s)) = onlineUsers s"
  by (simp add: db_complete_def Let_def split_beta)

lemma typing_state: "typing sock data s = Inr r \<Longrightarrow> fst r = s"
  by (auto simp: typing_def Let_def split: option.splits if_splits)

lemma typing_effects:
  "typing sock data s = Inr r \<Longrightarrow> \<not> list_ex is_delivery (snd r)"
  by (auto simp: typing_def Let_def split: option.splits if_splits)

lemma send_message_state:
  "send_message sock data s = Inr r \<Longrightarrow>
     onlineUsers (fst r) = onlineUsers s \<and> db (fst r) = db s \<and> snd r = []"
  by (auto simp: send_message_def split: option.splits)

lemma send_image_state:
  "send_image sock data s = Inr r \<Longrightarrow>
     onlineUsers (fst r) = onlineUsers s \<and> db (fst r) = db s \<and> snd r = []"
  by (auto simp: send_image_def split: option.splits)

text \<open>The three ways a turn of the event loop can go.\<close>

lemma step_cases:
  "step e s = (s, []) \<or> (\<exists>err. step e s = (s\<lparr>uncaught := Some err\<rparr>, [])) \<or>
   (uncaught s = None \<and> dispatch e s = Inr (step e s))"
  by (auto simp: step_def split: option.splits sum.splits)

lemma run_Cons_fst: "fst (run (e # es) s) = fst (run es (fst (step e s)))"
  by (simp add: split_beta)

lemma run_Cons_snd: "snd (run (e # es) s) = snd (step e s) @ snd (run es (fst (step e s)))"
  by (simp add: split_beta)

lemma dispatch_keeps_binding:
  assumes wf: "Map_wf (onlineUsers s)"
    and bound: "Map_get u (onlineUsers s) = Some h"
    and other: "\<not> rebinds u h e"
    and handled: "dispatch e s = Inr r"
  shows "Map_wf (onlineUsers (fst r)) \<and> Map_get u (onlineUsers (fst r)) = Some h"
proof (cases e)
  case (Connection sock)
  with wf bound handled show ?thesis by (auto simp: connection_def)
next
  case (User_login sock userId)
  with wf bound other handled show ?thesis
    by (auto simp: user_login_def Let_def Map_wf_set Map_get_set)
next
  case (Send_message sock data)
  with wf bound handled show ?thesis using send_message_state by fastforce
next
  case (Send_image sock data)
  with wf bound handled show ?thesis using send_image_state by fastforce
next
  case (Typing sock data)
  with wf bound handled show ?thesis using typing_state by fastforce
next
  case (Disconnect sock)
  with other have neq: "sock \<noteq> h" by simp
  from Disconnect handled have r: "r = disconnect sock s" by simp
  show ?thesis
  proof (cases "first_bound sock (onlineUsers s)")
    case None
    with wf bound r show ?thesis by (simp add: disconnect_registry)
  next
    case (Some u')
    have "u' \<noteq> u"
    proof
      assume "u' = u"
      with Some have "(u, sock) \<in> set (onlineUsers s)" by (simp add: first_bound_Some)
      with wf have "Map_get u (onlineUsers s) = Some sock" by (rule Map_wf_get)
      with bound neq show False by simp
    qed
    with wf bound r Some show ?thesis
      by (simp add: disconnect_registry Map_wf_delete Map_get_delete)
  qed
next
  case (Db_complete i outcome)
  with wf bound handled show ?thesis by (auto simp: db_complete_registry)
qed

lemma step_keeps_binding:
  assumes wf: "Map_wf (onlineUsers s)"
    and bound: "Map_get u (onlineUsers s) = Some h"
    and other: "\<not> rebinds u h e"
  shows "Map_wf (onlineUsers (fst (step e s))) \<and>
         Map_get u (onlineUsers (fst (step e s))) = Some h"
proof -
  consider (dead) "step e s = (s, [])"
    | (throws) err where "step e s = (s\<lparr>uncaught := Some err\<rparr>, [])"
    | (handled) "dispatch e s = Inr (step e s)"
    using step_cases by blast
  then show ?thesis
  proof cases
    case dead
    with wf bound show ?thesis by simp
  next
    case throws
    with wf bound show ?thesis by simp
  next
    case handled
    then show ?thesis by (rule dispatch_keeps_binding [OF wf bound other])
  qed
qed

lemma run_keeps_binding:
  assumes "Map_wf (onlineUsers s)"
    and "Map_get u (onlineUsers s) = Some h"
    and "list_all (\<lambda>e. \<not> rebinds u h e) evs"
  shows "Map_get u (onlineUsers (fst (run evs s))) = Some h"
  using assms
proof (induction evs arbitrary: s)
  case Nil
  then show ?case by simp
next
  case (Cons e es)
  from Cons.prems have "\<not> rebinds u h e" and rest: "list_all (\<lambda>e. \<not> rebinds u h e) es"
    by simp_all
  with Cons.prems(1,2) have
    wf': "Map_wf (onlineUsers (fst (step e s)))" and
    bound': "Map_get u (onlineUsers (fst (step e s))) = Some h"
    using step_keeps_binding by blast+
  have "Map_get u (onlineUsers (fst (run es (fst (step e s))))) = Some h"
    by (rule Cons.IH [OF wf' bound' rest])
  then show ?case by (simp only: run_Cons_fst)
qed

lemma callback_delivery_success:
  "list_ex is_delivery (callback job err m) \<Longrightarrow> err = None"
  by (cases job; cases err) (simp_all add: send_message_callback_def send_image_callback_def)

lemma callback_row_message:
  "list_all (\<lambda>eff. is_delivery eff \<longrightarrow>
      list_ex (delivers eff)
        [\<lparr>row_id = n, sender_id = md_senderId md, receiver_id = md_receiverId md,
          message = md_message md, image_data = None, created_at = now\<rparr>])
     (send_message_callback md None m)"
  by (simp add: send_message_callback_def Let_def)

lemma callback_row_image:
  "list_all (\<lambda>eff. is_delivery eff \<longrightarrow>
      list_ex (delivers eff)
        [\<lparr>row_id = n, sender_id = im_senderId im, receiver_id = im_receiverId im,
          message = None, image_data = im_imageData im, created_at = now\<rparr>])
     (send_image_callback im None m)"
  by (simp add: send_image_callback_def Let_def)

lemma db_complete_rows:
  "\<exists>new. messages (db (fst (db_complete i outcome s))) = messages (db s) @ new \<and>
         deliveries_persisted (snd (db_complete i outcome s)) new"
proof (cases "i < length (pending s)")
  case False
  then show ?thesis by (simp add: db_complete_def deliveries_persisted_def)
next
  case inside: True
  show ?thesis
  proof (cases outcome)
    case (DbFail e)
    have "\<not> list_ex is_delivery (callback (pending s ! i) (Some e) (onlineUsers s))"
      using callback_delivery_success by fastforce
    then have "deliveries_persisted (callback (pending s ! i) (Some e) (onlineUsers s)) []"
      by (auto simp: deliveries_persisted_def list_all_iff list_ex_iff)
    with inside DbFail show ?thesis by (simp add: db_complete_fail)
  next
    case (DbOk now)
    show ?thesis
    proof (cases "pending s ! i")
      case (Run_insert_message sock md)
      with inside DbOk show ?thesis
        using callback_row_message [of _ md now "onlineUsers s"]
        by (simp add: db_complete_message insert_message_def deliveries_persisted_def)
    next
      case (Run_insert_image sock im)
      with inside DbOk show ?thesis
        using callback_row_image [of _ im now "onlineUsers s"]
        by (simp add: db_complete_image insert_image_def deliveries_persisted_def)
    qed
  qed
qed

lemma dispatch_rows:
  assumes "dispatch e s = Inr r"
  shows "\<exists>new. messages (db (fst r)) = messages (db s) @ new \<and>
           deliveries_persisted (snd r) new"
proof (cases e)
  case (Db_complete i outcome)
  with assms show ?thesis using db_complete_rows by auto
next
  case (Send_message sock data)
  with assms show ?thesis
    using send_message_state by (fastforce simp: deliveries_persisted_def)
next
  case (Send_image sock data)
  with assms show ?thesis
    using send_image_state by (fastforce simp: deliveries_persisted_def)
next
  case (Typing sock data)
  with assms have "fst r = s" and "\<not> list_ex is_delivery (snd r)"
    using typing_state typing_effects by auto
  then show ?thesis
    by (auto simp: deliveries_persisted_def list_all_iff list_ex_iff)
qed (use assms in \<open>auto simp: connection_def user_login_def disconnect_def Let_def
      deliveries_persisted_def\<close>)

lemma step_rows:
  "\<exists>new. messages (db (fst (step e s))) = messages (db s) @ new \<and>
         deliveries_persisted (snd (step e s)) new"
proof -
  consider (dead) "step e s = (s, [])"
    | (throws) err where "step e s = (s\<lparr>uncaught := Some err\<rparr>, [])"
    | (handled) "dispatch e s = Inr (step e s)"
    using step_cases by blast
  then show ?thesis
  proof cases
    case dead
    then show ?thesis by (simp add: deliveries_persisted_def)
  next
    case throws
    then show ?thesis by (simp add: deliveries_persisted_def)
  next
    case handled
    then show ?thesis by (rule dispatch_rows)
  qed
qed

lemma deliveries_persisted_append:
  assumes "deliveries_persisted effs1 rows1" and "deliveries_persisted effs2 rows2"
  shows "deliveries_persisted (effs1 @ effs2) (rows1 @ rows2)"
  using assms by (auto simp: deliveries_persisted_def list_all_iff list_ex_iff)

lemma run_rows:
  "\<exists>new. messages (db (fst (run evs s))) = messages (db s) @ new \<and>
         deliveries_persisted (snd (run evs s)) new"
proof (induction evs arbitrary: s)
  case Nil
  show ?case by (simp add: deliveries_persisted_def)
next
  case (Cons e es)
  obtain new1 where 1: "messages (db (fst (step e s))) = messages (db s) @ new1"
      "deliveries_persisted (snd (step e s)) new1"
    using step_rows by blast
  obtain new2 where 2:
      "messages (db (fst (run es (fst (step e s))))) = messages (db (fst (step e s))) @ new2"
      "deliveries_persisted (snd (run es (fst (step e s)))) new2"
    using Cons.IH by blast
  have "messages (db (fst (run (e # es) s))) = messages (db s) @ (new1 @ new2)"
    using 1(1) 2(1) by (simp only: run_Cons_fst append_assoc)
  moreover have "deliveries_persisted (snd (run (e # es) s)) (new1 @ new2)"
    using deliveries_persisted_append [OF 1(2) 2(2)] by (simp only: run_Cons_snd)
  ultimately show ?case by blast
qed

lemma dispatch_delivery_source:
  assumes "dispatch e s = Inr r" and "list_ex is_delivery (snd r)"
  shows "\<exists>i now. e = Db_complete i (DbOk now) \<and> i < length (pending s)"
proof (cases e)
  case (Db_complete i outcome)
  with assms have r: "r = db_complete i outcome s" by simp
  show ?thesis
  proof (cases "i < length (pending s)")
    case False
    with assms(2) r show ?thesis by (simp add: db_complete_def)
  next
    case True
    show ?thesis
    proof (cases outcome)
      case (DbFail err)
      with assms(2) r True
      have "list_ex is_delivery (callback (pending s ! i) (Some err) (onlineUsers s))"
        by (simp add: db_complete_fail)
      then show ?thesis using callback_delivery_success by fastforce
    next
      case (DbOk now)
      with Db_complete True show ?thesis by simp
    qed
  qed
next
  case (Typing sock data)
  with assms show ?thesis using typing_effects by auto
next
  case (Send_message sock data)
  with assms show ?thesis using send_message_state by fastforce
next
  case (Send_image sock data)
  with assms show ?thesis using send_image_state by fastforce
qed (use assms in \<open>auto simp: connection_def user_login_def disconnect_def Let_def\<close>)

lemma step_delivery_source:
  assumes "list_ex is_delivery (snd (step e s))"
  shows "\<exists>i now. e = Db_complete i (DbOk now) \<and> i < length (pending s)"
proof -
  consider (dead) "step e s = (s, [])"
    | (throws) err where "step e s = (s\<lparr>uncaught := Some err\<rparr>, [])"
    | (handled) "dispatch e s = Inr (step e s)"
    using step_cases by blast
  then show ?thesis
  proof cases
    case dead
    with assms show ?thesis by simp
  next
    case throws
    with assms show ?thesis by simp
  next
    case handled
    then show ?thesis using assms by (rule dispatch_delivery_source)
  qed
qed

lemma handles_truthy_set: "handles_truthy m \<Longrightarrow> h \<noteq> [] \<Longrightarrow> handles_truthy (Map_set k h m)"
  by (induction m) (auto simp: handles_truthy_def)

lemma handles_truthy_delete: "handles_truthy m \<Longrightarrow> handles_truthy (Map_delete k m)"
  by (induction m) (auto simp: handles_truthy_def)

text \<open>
  Both conditions on the registry hold at the start and after every event, as long as the
  sockets that log in have non-empty ids.
\<close>

lemma dispatch_registry_invariant:
  assumes "Map_wf (onlineUsers s)" and "handles_truthy (onlineUsers s)" and "event_ok e"
    and "dispatch e s = Inr r"
  shows "Map_wf (onlineUsers (fst r)) \<and> handles_truthy (onlineUsers (fst r))"
proof (cases e)
  case (User_login sock userId)
  with assms show ?thesis
    by (auto simp: user_login_def Let_def Map_wf_set handles_truthy_set)
next
  case (Disconnect sock)
  with assms show ?thesis
    by (auto simp: disconnect_registry Map_wf_delete handles_truthy_delete split: option.splits)
next
  case (Send_message sock data)
  with assms show ?thesis using send_message_state by fastforce
next
  case (Send_image sock data)
  with assms show ?thesis using send_image_state by fastforce
next
  case (Typing sock data)
  with assms show ?thesis using typing_state by fastforce
qed (use assms in \<open>auto simp: connection_def db_complete_registry\<close>)

lemma step_registry_invariant:
  assumes "Map_wf (onlineUsers s)" and "handles_truthy (onlineUsers s)" and "event_ok e"
  shows "Map_wf (onlineUsers (fst (step e s))) \<and> handles_truthy (onlineUsers (fst (step e s)))"
proof -
  consider (dead) "step e s = (s, [])"
    | (throws) err where "step e s = (s\<lparr>uncaught := Some err\<rparr>, [])"
    | (handled) "dispatch e s = Inr (step e s)"
    using step_cases by blast
  then show ?thesis
  proof cases
    case dead
    with assms show ?thesis by simp
  next
    case throws
    with assms show ?thesis by simp
  next
    case handled
    then show ?thesis by (rule dispatch_registry_invariant [OF assms])
  qed
qed

lemma run_registry_invariant:
  assumes "Map_wf (onlineUsers s)" and "handles_truthy (onlineUsers s)"
    and "list_all event_ok evs"
  shows "Map_wf (onlineUsers (fst (run evs s))) \<and> handles_truthy (onlineUsers (fst (run evs s)))"
  using assms
proof (induction evs arbitrary: s)
  case Nil
  then show ?case by simp
next
  case (Cons e es)
  from Cons.prems have "event_ok e" and rest: "list_all event_ok es"
    by simp_all
  with Cons.prems(1,2) have
    wf': "Map_wf (onlineUsers (fst (step e s)))" and
    tr': "handles_truthy (onlineUsers (fst (step e s)))"
    using step_registry_invariant by blast+
  show ?case
    using Cons.IH [OF wf' tr' rest] by (simp only: run_Cons_fst)
qed

lemma init_registry_invariant: "Map_wf (onlineUsers init) \<and> handles_truthy (onlineUsers init)"
  by (simp add: init_def Map_wf_def handles_truthy_def)

lemma handlers_without_payload:
  "send_message sock None s = Inl TypeError \<and> send_image sock None s = Inl TypeError \<and>
   typing sock None s = Inl TypeError"
  by (simp add: send_message_def send_image_def typing_def)

section \<open>The claims\<close>

text \<open>
  C1. Every send whose persistence succeeds leaves a row in the messages table with exactly
  the sender id, the receiver id and the payload that were supplied, the other payload
  column NULL. On an event that carries a payload object both handlers hand their INSERT
  to the store without looking at the registry and do nothing else, in every state; and
  when the store executes a pending INSERT the row is appended whatever the
  registry holds at that moment: replacing the registry by any other leaves the resulting
  table the same.
\<close>

theorem send_persists_row:
  shows "send_message sock (Some md) s =
           Inr (s\<lparr>pending := pending s @ [Run_insert_message sock md]\<rparr>, [])
       \<and> send_image sock (Some im) s =
           Inr (s\<lparr>pending := pending s @ [Run_insert_image sock im]\<rparr>, [])
       \<and> (i < length (pending s) \<and> pending s ! i = Run_insert_message sock md \<longrightarrow>
            messages (db (fst (db_complete i (DbOk now) s))) =
              messages (db s) @
                [\<lparr>row_id = Suc (sqlite_sequence (db s)), sender_id = md_senderId md,
                  receiver_id = md_receiverId md, message = md_message md,
                  image_data = None, created_at = now\<rparr>])
       \<and> (i < length (pending s) \<and> pending s ! i = Run_insert_image sock im \<longrightarrow>
            messages (db (fst (db_complete i (DbOk now) s))) =
              messages (db s) @
                [\<lparr>row_id = Suc (sqlite_sequence (db s)), sender_id = im_senderId im,
                  receiver_id = im_receiverId im, message = None,
                  image_data = im_imageData im, created_at = now\<rparr>])
       \<and> db (fst (db_complete i (DbOk now) (s\<lparr>onlineUsers := m\<rparr>))) =
           db (fst (db_complete i (DbOk now) s))"
proof -
  have "db (fst (db_complete i (DbOk now) (s\<lparr>onlineUsers := m\<rparr>))) =
        db (fst (db_complete i (DbOk now) s))"
    by (simp add: db_complete_def Let_def split_beta)
  then show ?thesis
    by (simp add: send_message_def send_image_def db_complete_message db_complete_image
        insert_message_def insert_image_def)
qed

theorem send_persists_row_witness:
  "(1::nat) < length (pending
      \<lparr>onlineUsers = [], db = \<lparr>messages = [], sqlite_sequence = 0\<rparr>,
       pending =
         [Run_insert_message ''s1''
            \<lparr>md_senderId = 5, md_receiverId = 9, md_message = Some ''hi'',
              md_timestamp = ''t1'', md_imageData = None\<rparr>,
          Run_insert_image ''s1''
            \<lparr>im_senderId = 5, im_receiverId = 9, im_imageData = Some ''png'',
              im_timestamp = ''t2'', im_message = None\<rparr>], uncaught = None\<rparr>)
   \<and> messages (db (fst (db_complete 0 (DbOk 7)
      \<lparr>onlineUsers = [], db = \<lparr>messages = [], sqlite_sequence = 0\<rparr>,
       pending =
         [Run_insert_message ''s1''
            \<lparr>md_senderId = 5, md_receiverId = 9, md_message = Some ''hi'',
              md_timestamp = ''t1'', md_imageData = None\<rparr>,
          Run_insert_image ''s1''
            \<lparr>im_senderId = 5, im_receiverId = 9, im_imageData = Some ''png'',
              im_timestamp = ''t2'', im_message = None\<rparr>], uncaught = None\<rparr>))) =
      [\<lparr>row_id = 1, sender_id = 5, receiver_id = 9, message = Some ''hi'', image_data = None,
        created_at = 7\<rparr>]
   \<and> messages (db (fst (db_complete 1 (DbOk 8)
      \<lparr>onlineUsers = [], db = \<lparr>messages = [], sqlite_sequence = 0\<rparr>,
       pending =
         [Run_insert_message ''s1''
            \<lparr>md_senderId = 5, md_receiverId = 9, md_message = Some ''hi'',
              md_timestamp = ''t1'', md_imageData = None\<rparr>,
          Run_insert_image ''s1''
            \<lparr>im_senderId = 5, im_receiverId = 9, im_imageData = Some ''png'',
              im_timestamp = ''t2'', im_message = None\<rparr>], uncaught = None\<rparr>))) =
      [\<lparr>row_id = 1, sender_id = 5, receiver_id = 9, message = None, image_data = Some ''png'',
        created_at = 8\<rparr>]"
proof -
  let ?md = "\<lparr>md_senderId = 5, md_receiverId = 9, md_message = Some ''hi'',
              md_timestamp = ''t1'', md_imageData = None\<rparr>"
  let ?im = "\<lparr>im_senderId = 5, im_receiverId = 9, im_imageData = Some ''png'',
              im_timestamp = ''t2'', im_message = None\<rparr>"
  let ?s = "\<lparr>onlineUsers = [], db = \<lparr>messages = [], sqlite_sequence = 0\<rparr>,
             pending = [Run_insert_message ''s1'' ?md, Run_insert_image ''s1'' ?im],
             uncaught = None\<rparr>"
  have 0: "0 < length (pending ?s)" and 1: "1 < length (pending ?s)"
    by simp_all
  have "messages (db (fst (db_complete 0 (DbOk 7) ?s))) =
      [\<lparr>row_id = 1, sender_id = 5, receiver_id = 9, message = Some ''hi'', image_data = None,
        created_at = 7\<rparr>]"
    using send_persists_row [where i = 0 and s = ?s and sock = "''s1''" and md = ?md
        and now = 7]
    by simp
  moreover have "messages (db (fst (db_complete 1 (DbOk 8) ?s))) =
      [\<lparr>row_id = 1, sender_id = 5, receiver_id = 9, message = None, image_data = Some ''png'',
        created_at = 8\<rparr>]"
    using send_persists_row [where i = 1 and s = ?s and sock = "''s1''" and im = ?im
        and now = 8]
    by simp
  ultimately show ?thesis
    using 1 by simp
qed

text \<open>
  C2. When the INSERT of a send has succeeded, the callback looks the receiver up in the
  registry of that moment: if an entry is there, the effects are exactly one
  \<^verbatim>\<open>receive_message\<close> (or \<^verbatim>\<open>receive_image\<close>) event with the sender id, the payload and the
  timestamp, addressed to the handle of that entry; if none is there, the only effect is a
  line on the server console, so no delivery event and nothing for the sender.
\<close>

theorem delivery_iff_receiver_present:
  assumes "handles_truthy (onlineUsers s)" and "i < length (pending s)"
  shows "(pending s ! i = Run_insert_message sock md \<longrightarrow>
            snd (db_complete i (DbOk now) s) =
              (case Map_get (md_receiverId md) (onlineUsers s) of
                 Some h \<Rightarrow> [Io_to_emit h
                   (Receive_message (md_senderId md) (md_message md) (md_timestamp md))]
               | None \<Rightarrow> [Console_log (Message_saved_for_offline_user (md_receiverId md))]))
       \<and> (pending s ! i = Run_insert_image sock im \<longrightarrow>
            snd (db_complete i (DbOk now) s) =
              (case Map_get (im_receiverId im) (onlineUsers s) of
                 Some h \<Rightarrow> [Io_to_emit h
                   (Receive_image (im_senderId im) (im_imageData im) (im_timestamp im))]
               | None \<Rightarrow> [Console_log (Image_saved_for_offline_user (im_receiverId im))]))"
  using assms
  by (simp add: db_complete_message db_complete_image send_message_callback_ok
      send_image_callback_ok)

theorem delivery_iff_receiver_present_witness:
  "handles_truthy (onlineUsers
      \<lparr>onlineUsers = [(9, ''h2'')], db = \<lparr>messages = [], sqlite_sequence = 0\<rparr>,
       pending =
         [Run_insert_message ''s1''
            \<lparr>md_senderId = 5, md_receiverId = 9, md_message = Some ''hi'',
              md_timestamp = ''t1'', md_imageData = None\<rparr>,
          Run_insert_image ''s1''
            \<lparr>im_senderId = 5, im_receiverId = 4, im_imageData = Some ''png'',
              im_timestamp = ''t2'', im_message = None\<rparr>], uncaught = None\<rparr>)
   \<and> snd (db_complete 0 (DbOk 7)
      \<lparr>onlineUsers = [(9, ''h2'')], db = \<lparr>messages = [], sqlite_sequence = 0\<rparr>,
       pending =
         [Run_insert_message ''s1''
            \<lparr>md_senderId = 5, md_receiverId = 9, md_message = Some ''hi'',
              md_timestamp = ''t1'', md_imageData = None\<rparr>,
          Run_insert_image ''s1''
            \<lparr>im_senderId = 5, im_receiverId = 4, im_imageData = Some ''png'',
              im_timestamp = ''t2'', im_message = None\<rparr>], uncaught = None\<rparr>) =
     [Io_to_emit ''h2'' (Receive_message 5 (Some ''hi'') ''t1'')]
   \<and> snd (db_complete 1 (DbOk 8)
      \<lparr>onlineUsers = [(9, ''h2'')], db = \<lparr>messages = [], sqlite_sequence = 0\<rparr>,
       pending =
         [Run_insert_message ''s1''
            \<lparr>md_senderId = 5, md_receiverId = 9, md_message = Some ''hi'',
              md_timestamp = ''t1'', md_imageData = None\<rparr>,
          Run_insert_image ''s1''
            \<lparr>im_senderId = 5, im_receiverId = 4, im_imageData = Some ''png'',
              im_timestamp = ''t2'', im_message = None\<rparr>], uncaught = None\<rparr>) =
     [Console_log (Image_saved_for_offline_user 4)]"
proof -
  let ?md = "\<lparr>md_senderId = 5, md_receiverId = 9, md_message = Some ''hi'',
              md_timestamp = ''t1'', md_imageData = None\<rparr>"
  let ?im = "\<lparr>im_senderId = 5, im_receiverId = 4, im_imageData = Some ''png'',
              im_timestamp = ''t2'', im_message = None\<rparr>"
  let ?s = "\<lparr>onlineUsers = [(9, ''h2'')], db = \<lparr>messages = [], sqlite_sequence = 0\<rparr>,
             pending = [Run_insert_message ''s1'' ?md, Run_insert_image ''s1'' ?im],
             uncaught = None\<rparr>"
  have tr: "handles_truthy (onlineUsers ?s)"
    by (simp add: handles_truthy_def)
  have 0: "0 < length (pending ?s)" and 1: "1 < length (pending ?s)"
    by simp_all
  have "snd (db_complete 0 (DbOk 7) ?s) =
      [Io_to_emit ''h2'' (Receive_message 5 (Some ''hi'') ''t1'')]"
    using delivery_iff_receiver_present [OF tr 0, where sock = "''s1''" and md = ?md and now = 7]
    by simp
  moreover have "snd (db_complete 1 (DbOk 8) ?s) = [Console_log (Image_saved_for_offline_user 4)]"
    using delivery_iff_receiver_present [OF tr 1, where sock = "''s1''" and im = ?im and now = 8]
    by simp
  ultimately show ?thesis
    using tr by simp
qed

text \<open>
  C3, as the handlers have it. When the INSERT of a send fails, the callback writes the
  error to the server console and returns: the table and the registry are as before, there
  is no delivery event, and no event goes to any socket, the sender's included. The
  failure is not reported to the sender.
\<close>

theorem send_failure_logged_only:
  assumes "i < length (pending s)"
  shows "db (fst (db_complete i (DbFail e) s)) = db s
       \<and> onlineUsers (fst (db_complete i (DbFail e) s)) = onlineUsers s
       \<and> pending (fst (db_complete i (DbFail e) s)) =
           take i (pending s) @ drop (Suc i) (pending s)
       \<and> snd (db_complete i (DbFail e) s) =
           [Console_log (case pending s ! i of
                           Run_insert_message sock md \<Rightarrow> Error_saving_message e
                         | Run_insert_image sock im \<Rightarrow> Error_saving_image e)]
       \<and> \<not> list_ex is_delivery (snd (db_complete i (DbFail e) s))
       \<and> \<not> reported_to h (snd (db_complete i (DbFail e) s))"
  using assms
  by (cases "pending s ! i")
    (simp_all add: db_complete_fail send_message_callback_def send_image_callback_def
      reported_to_def)

theorem send_failure_logged_only_witness:
  "(1::nat) < length (pending
      \<lparr>onlineUsers = [(9, ''h2'')], db = \<lparr>messages = [], sqlite_sequence = 0\<rparr>,
       pending =
         [Run_insert_message ''s1''
            \<lparr>md_senderId = 5, md_receiverId = 9, md_message = Some ''hi'',
              md_timestamp = ''t1'', md_imageData = None\<rparr>,
          Run_insert_image ''s1''
            \<lparr>im_senderId = 5, im_receiverId = 9, im_imageData = Some ''png'',
              im_timestamp = ''t2'', im_message = None\<rparr>], uncaught = None\<rparr>)
   \<and> snd (db_complete 0 (DbFail (SqliteError ''SQLITE_FULL''))
      \<lparr>onlineUsers = [(9, ''h2'')], db = \<lparr>messages = [], sqlite_sequence = 0\<rparr>,
       pending =
         [Run_insert_message ''s1''
            \<lparr>md_senderId = 5, md_receiverId = 9, md_message = Some ''hi'',
              md_timestamp = ''t1'', md_imageData = None\<rparr>,
          Run_insert_image ''s1''
            \<lparr>im_senderId = 5, im_receiverId = 9, im_imageData = Some ''png'',
              im_timestamp = ''t2'', im_message = None\<rparr>], uncaught = None\<rparr>) =
     [Console_log (Error_saving_message (SqliteError ''SQLITE_FULL''))]
   \<and> snd (db_complete 1 (DbFail (SqliteError ''SQLITE_FULL''))
      \<lparr>onlineUsers = [(9, ''h2'')], db = \<lparr>messages = [], sqlite_sequence = 0\<rparr>,
       pending =
         [Run_insert_message ''s1''
            \<lparr>md_senderId = 5, md_receiverId = 9, md_message = Some ''hi'',
              md_timestamp = ''t1'', md_imageData = None\<rparr>,
          Run_insert_image ''s1''
            \<lparr>im_senderId = 5, im_receiverId = 9, im_imageData = Some ''png'',
              im_timestamp = ''t2'', im_message = None\<rparr>], uncaught = None\<rparr>) =
     [Console_log (Error_saving_image (SqliteError ''SQLITE_FULL''))]"
proof -
  let ?md = "\<lparr>md_senderId = 5, md_receiverId = 9, md_message = Some ''hi'',
              md_timestamp = ''t1'', md_imageData = None\<rparr>"
  let ?im = "\<lparr>im_senderId = 5, im_receiverId = 9, im_imageData = Some ''png'',
              im_timestamp = ''t2'', im_message = None\<rparr>"
  let ?s = "\<lparr>onlineUsers = [(9, ''h2'')], db = \<lparr>messages = [], sqlite_sequence = 0\<rparr>,
             pending = [Run_insert_message ''s1'' ?md, Run_insert_image ''s1'' ?im],
             uncaught = None\<rparr>"
  have 0: "0 < length (pending ?s)" and 1: "1 < length (pending ?s)"
    by simp_all
  have "snd (db_complete 0 (DbFail (SqliteError ''SQLITE_FULL'')) ?s) =
      [Console_log (Error_saving_message (SqliteError ''SQLITE_FULL''))]"
    using send_failure_logged_only [OF 0, where e = "SqliteError ''SQLITE_FULL''"] by simp
  moreover have "snd (db_complete 1 (DbFail (SqliteError ''SQLITE_FULL'')) ?s) =
      [Console_log (Error_saving_image (SqliteError ''SQLITE_FULL''))]"
    using send_failure_logged_only [OF 1, where e = "SqliteError ''SQLITE_FULL''"] by simp
  ultimately show ?thesis
    using 1 by simp
qed

text \<open>
  C3 as the specification states it fails: socket \<open>s1\<close> sends a message, the store fails,
  and the only effect of the two steps is a console line; nothing reaches \<open>s1\<close>.
\<close>

theorem send_failure_unreported_counterexample:
  "snd (run [Send_message ''s1''
              (Some \<lparr>md_senderId = 5, md_receiverId = 9, md_message = Some ''hi'',
                md_timestamp = ''t1'', md_imageData = None\<rparr>),
            Db_complete 0 (DbFail (SqliteError ''SQLITE_FULL''))] init) =
     [Console_log (Error_saving_message (SqliteError ''SQLITE_FULL''))]
   \<and> \<not> reported_to ''s1'' (snd (run [Send_message ''s1''
              (Some \<lparr>md_senderId = 5, md_receiverId = 9, md_message = Some ''hi'',
                md_timestamp = ''t1'', md_imageData = None\<rparr>),
            Db_complete 0 (DbFail (SqliteError ''SQLITE_FULL''))] init))"
  by (simp add: step_def init_def send_message_def db_complete_def send_message_callback_def
      reported_to_def)

text \<open>
  C4, as the handlers have it. Neither handler validates its payload. On every event that
  carries a payload object the handler issues its INSERT and emits nothing, whatever the
  payload fields hold. In a running process, when the store executes that INSERT, the row
  holds the handler's own payload field as it was supplied (NULL when absent) and NULL in
  the other payload column, and the callback takes its ordinary path (delivery to the
  receiver's handle, or the console line). So a payload with neither field gives a row
  whose two payload columns are NULL, and a payload with both fields gives a row with the
  handler's own field only: \<^verbatim>\<open>send_message\<close> keeps the message, \<^verbatim>\<open>send_image\<close> the image.
\<close>

theorem send_payload_not_validated:
  "send_message sock (Some md) s =
     Inr (s\<lparr>pending := pending s @ [Run_insert_message sock md]\<rparr>, [])
   \<and> send_image sock (Some im) s =
     Inr (s\<lparr>pending := pending s @ [Run_insert_image sock im]\<rparr>, [])
   \<and> (uncaught s = None \<longrightarrow>
        messages (db (fst (run [Send_message sock (Some md),
                                Db_complete (length (pending s)) (DbOk now)] s))) =
          messages (db s) @
            [\<lparr>row_id = Suc (sqlite_sequence (db s)), sender_id = md_senderId md,
              receiver_id = md_receiverId md, message = md_message md, image_data = None,
              created_at = now\<rparr>]
      \<and> snd (run [Send_message sock (Some md),
                  Db_complete (length (pending s)) (DbOk now)] s) =
          send_message_callback md None (onlineUsers s)
      \<and> messages (db (fst (run [Send_image sock (Some im),
                                Db_complete (length (pending s)) (DbOk now)] s))) =
          messages (db s) @
            [\<lparr>row_id = Suc (sqlite_sequence (db s)), sender_id = im_senderId im,
              receiver_id = im_receiverId im, message = None, image_data = im_imageData im,
              created_at = now\<rparr>]
      \<and> snd (run [Send_image sock (Some im),
                  Db_complete (length (pending s)) (DbOk now)] s) =
          send_image_callback im None (onlineUsers s)
      \<and> messages (db (fst (run
            [Send_message sock (Some (md\<lparr>md_message := None, md_imageData := None\<rparr>)),
             Db_complete (length (pending s)) (DbOk now)] s))) =
          messages (db s) @
            [\<lparr>row_id = Suc (sqlite_sequence (db s)), sender_id = md_senderId md,
              receiver_id = md_receiverId md, message = None, image_data = None,
              created_at = now\<rparr>]
      \<and> messages (db (fst (run
            [Send_message sock (Some (md\<lparr>md_message := Some t, md_imageData := Some g\<rparr>)),
             Db_complete (length (pending s)) (DbOk now)] s))) =
          messages (db s) @
            [\<lparr>row_id = Suc (sqlite_sequence (db s)), sender_id = md_senderId md,
              receiver_id = md_receiverId md, message = Some t, image_data = None,
              created_at = now\<rparr>]
      \<and> messages (db (fst (run
            [Send_image sock (Some (im\<lparr>im_imageData := None, im_message := None\<rparr>)),
             Db_complete (length (pending s)) (DbOk now)] s))) =
          messages (db s) @
            [\<lparr>row_id = Suc (sqlite_sequence (db s)), sender_id = im_senderId im,
              receiver_id = im_receiverId im, message = None, image_data = None,
              created_at = now\<rparr>]
      \<and> messages (db (fst (run
            [Send_image sock (Some (im\<lparr>im_imageData := Some g, im_message := Some t\<rparr>)),
             Db_complete (length (pending s)) (DbOk now)] s))) =
          messages (db s) @
            [\<lparr>row_id = Suc (sqlite_sequence (db s)), sender_id = im_senderId im,
              receiver_id = im_receiverId im, message = None, image_data = Some g,
              created_at = now\<rparr>])"
  by (simp add: step_def send_message_def send_image_def db_complete_def insert_message_def
      insert_image_def)

theorem send_payload_not_validated_witness:
  "uncaught init = None
   \<and> messages (db (fst (run
        [Send_message ''s1''
           (Some \<lparr>md_senderId = 5, md_receiverId = 9, md_message = Some ''hi'',
                  md_timestamp = ''t1'', md_imageData = Some ''png''\<rparr>),
         Db_complete 0 (DbOk 7)] init))) =
      [\<lparr>row_id = 1, sender_id = 5, receiver_id = 9, message = Some ''hi'', image_data = None,
        created_at = 7\<rparr>]
   \<and> messages (db (fst (run
        [Send_image ''s1''
           (Some \<lparr>im_senderId = 5, im_receiverId = 9, im_imageData = None,
                  im_timestamp = ''t2'', im_message = None\<rparr>),
         Db_complete 0 (DbOk 8)] init))) =
      [\<lparr>row_id = 1, sender_id = 5, receiver_id = 9, message = None, image_data = None,
        created_at = 8\<rparr>]"
proof -
  have alive: "uncaught init = None"
    by (simp add: step_def init_def)
  have len: "length (pending init) = 0"
    by (simp add: step_def init_def)
  have rows: "messages (db init) = []" "sqlite_sequence (db init) = 0"
    by (simp_all add: init_def)
  note inst = send_payload_not_validated [where s = init and sock = "''s1''", unfolded len]
  have "messages (db (fst (run
        [Send_message ''s1''
           (Some \<lparr>md_senderId = 5, md_receiverId = 9, md_message = Some ''hi'',
                  md_timestamp = ''t1'', md_imageData = Some ''png''\<rparr>),
         Db_complete 0 (DbOk 7)] init))) =
      [\<lparr>row_id = 1, sender_id = 5, receiver_id = 9, message = Some ''hi'', image_data = None,
        created_at = 7\<rparr>]"
    using inst [where now = 7
        and md = "\<lparr>md_senderId = 5, md_receiverId = 9, md_message = Some ''hi'',
                   md_timestamp = ''t1'', md_imageData = Some ''png''\<rparr>"] alive rows
    by simp
  moreover have "messages (db (fst (run
        [Send_image ''s1''
           (Some \<lparr>im_senderId = 5, im_receiverId = 9, im_imageData = None,
                  im_timestamp = ''t2'', im_message = None\<rparr>),
         Db_complete 0 (DbOk 8)] init))) =
      [\<lparr>row_id = 1, sender_id = 5, receiver_id = 9, message = None, image_data = None,
        created_at = 8\<rparr>]"
    using inst [where now = 8
        and im = "\<lparr>im_senderId = 5, im_receiverId = 9, im_imageData = None,
                   im_timestamp = ''t2'', im_message = None\<rparr>"] alive rows
    by simp
  ultimately show ?thesis
    using alive by simp
qed

text \<open>
  C4 as the specification states it fails: a \<^verbatim>\<open>send_message\<close> whose payload object has
  neither a message nor an image is not rejected. The store accepts the INSERT (the schema
  lets both payload columns be NULL), a row is written, and nothing reaches the sender.
\<close>

theorem malformed_payload_persisted_counterexample:
  "messages (db (fst (run [Send_message ''s1''
              (Some \<lparr>md_senderId = 5, md_receiverId = 9, md_message = None,
                md_timestamp = ''t1'', md_imageData = None\<rparr>),
            Db_complete 0 (DbOk 7)] init))) =
     [\<lparr>row_id = 1, sender_id = 5, receiver_id = 9, message = None, image_data = None,
       created_at = 7\<rparr>]
   \<and> \<not> reported_to ''s1'' (snd (run [Send_message ''s1''
              (Some \<lparr>md_senderId = 5, md_receiverId = 9, md_message = None,
                md_timestamp = ''t1'', md_imageData = None\<rparr>),
            Db_complete 0 (DbOk 7)] init))"
  by (simp add: step_def init_def send_message_def db_complete_def send_message_callback_def
      insert_message_def reported_to_def)

text \<open>
  C5. When an identity logs in on one handle and then on another, the registry resolves
  it to the second handle. It keeps doing so through every later run of events in which
  that identity does not log in again and the second handle does not disconnect, and at
  every such moment a message, an image or a typing notification for that identity goes
  to the second handle and to nothing else.
\<close>

theorem relogin_last_handle_wins:
  assumes "Map_wf (onlineUsers s)"
    and "h2 \<noteq> []"
    and "list_all (\<lambda>e. \<not> rebinds u h2 e) evs"
  shows "Map_get u (onlineUsers (fst (user_login h2 u (fst (user_login h1 u s))))) = Some h2
       \<and> (let s3 = fst (run evs (fst (user_login h2 u (fst (user_login h1 u s)))))
          in Map_get u (onlineUsers s3) = Some h2
           \<and> (md_receiverId md = u \<longrightarrow>
                send_message_callback md None (onlineUsers s3) =
                  [Io_to_emit h2
                    (Receive_message (md_senderId md) (md_message md) (md_timestamp md))])
           \<and> (im_receiverId im = u \<longrightarrow>
                send_image_callback im None (onlineUsers s3) =
                  [Io_to_emit h2
                    (Receive_image (im_senderId im) (im_imageData im) (im_timestamp im))])
           \<and> (ty_receiverId td = u \<longrightarrow>
                typing sock (Some td) s3 =
                  Inr (s3, [Io_to_emit h2 (User_typing (ty_senderId td))])))"
proof -
  let ?s2 = "fst (user_login h2 u (fst (user_login h1 u s)))"
  have wf2: "Map_wf (onlineUsers ?s2)"
    using assms(1) by (simp add: user_login_def Let_def Map_wf_set)
  have bound2: "Map_get u (onlineUsers ?s2) = Some h2"
    by (simp add: user_login_def Let_def Map_get_set)
  have bound3: "Map_get u (onlineUsers (fst (run evs ?s2))) = Some h2"
    by (rule run_keeps_binding [OF wf2 bound2 assms(3)])
  show ?thesis
    using bound2 bound3 assms(2)
    by (simp add: Let_def send_message_callback_def send_image_callback_def typing_def)
qed

theorem relogin_last_handle_wins_witness:
  "Map_wf (onlineUsers init) \<and> ''h2'' \<noteq> []
   \<and> list_all (\<lambda>e. \<not> rebinds 9 ''h2'' e) [User_login ''h3'' 4, Disconnect ''h1'']
   \<and> Map_get 9 (onlineUsers (fst (run [User_login ''h3'' 4, Disconnect ''h1'']
        (fst (user_login ''h2'' 9 (fst (user_login ''h1'' 9 init))))))) = Some ''h2''
   \<and> send_message_callback
        \<lparr>md_senderId = 5, md_receiverId = 9, md_message = Some ''hi'',
          md_timestamp = ''t1'', md_imageData = None\<rparr>
        None
        (onlineUsers (fst (run [User_login ''h3'' 4, Disconnect ''h1'']
          (fst (user_login ''h2'' 9 (fst (user_login ''h1'' 9 init))))))) =
      [Io_to_emit ''h2'' (Receive_message 5 (Some ''hi'') ''t1'')]
   \<and> send_image_callback
        \<lparr>im_senderId = 5, im_receiverId = 9, im_imageData = Some ''png'',
          im_timestamp = ''t2'', im_message = None\<rparr>
        None
        (onlineUsers (fst (run [User_login ''h3'' 4, Disconnect ''h1'']
          (fst (user_login ''h2'' 9 (fst (user_login ''h1'' 9 init))))))) =
      [Io_to_emit ''h2'' (Receive_image 5 (Some ''png'') ''t2'')]
   \<and> typing ''s1'' (Some \<lparr>ty_senderId = 5, ty_receiverId = 9\<rparr>)
        (fst (run [User_login ''h3'' 4, Disconnect ''h1'']
          (fst (user_login ''h2'' 9 (fst (user_login ''h1'' 9 init)))))) =
      Inr (fst (run [User_login ''h3'' 4, Disconnect ''h1'']
             (fst (user_login ''h2'' 9 (fst (user_login ''h1'' 9 init))))),
           [Io_to_emit ''h2'' (User_typing 5)])"
proof -
  have wf: "Map_wf (onlineUsers init)"
    by (simp add: step_def init_def Map_wf_def)
  have h: "''h2'' \<noteq> []"
    by simp
  have evs: "list_all (\<lambda>e. \<not> rebinds 9 ''h2'' e) [User_login ''h3'' 4, Disconnect ''h1'']"
    by simp
  show ?thesis
    using wf evs relogin_last_handle_wins [OF wf h evs, where ?h1.0 = "''h1''"
        and sock = "''s1''"
        and md = "\<lparr>md_senderId = 5, md_receiverId = 9, md_message = Some ''hi'',
          md_timestamp = ''t1'', md_imageData = None\<rparr>"
        and im = "\<lparr>im_senderId = 5, im_receiverId = 9, im_imageData = Some ''png'',
          im_timestamp = ''t2'', im_message = None\<rparr>"
        and td = "\<lparr>ty_senderId = 5, ty_receiverId = 9\<rparr>"]
    by (simp add: Let_def)
qed

text \<open>
  C6, as the handlers have it. The broadcast of a login of identity A on handle H lists
  A. The broadcast of a disconnect of H lists the keys of the registry after the one
  deletion the handler makes: it leaves A out when A is the first identity, in insertion
  order, whose handle is H, which is the case whenever A is bound to H and no other
  identity is; and it still lists A when A is bound to a handle other than H.
\<close>

theorem presence_snapshot_login_disconnect:
  assumes "Map_wf (onlineUsers s)"
  shows "snd (user_login H A s) =
           [Io_emit (Online_users (Map_keys (onlineUsers (fst (user_login H A s)))))]
       \<and> A \<in> set (Map_keys (onlineUsers (fst (user_login H A s))))
       \<and> snd (disconnect H s) =
           [Io_emit (Online_users (Map_keys (onlineUsers (fst (disconnect H s))))),
            Console_log (User_disconnected H)]
       \<and> (first_bound H (onlineUsers s) = Some A \<longrightarrow>
            A \<notin> set (Map_keys (onlineUsers (fst (disconnect H s)))))
       \<and> (Map_get A (onlineUsers s) = Some H \<and>
          (\<forall>u. (u, H) \<in> set (onlineUsers s) \<longrightarrow> u = A) \<longrightarrow>
            A \<notin> set (Map_keys (onlineUsers (fst (disconnect H s)))))
       \<and> (Map_get A (onlineUsers s) = Some H' \<and> H' \<noteq> H \<longrightarrow>
            A \<in> set (Map_keys (onlineUsers (fst (disconnect H s)))))"
proof (intro conjI impI)
  show "snd (user_login H A s) =
          [Io_emit (Online_users (Map_keys (onlineUsers (fst (user_login H A s)))))]"
    by (simp add: user_login_def Let_def)
  show "A \<in> set (Map_keys (onlineUsers (fst (user_login H A s))))"
    by (simp add: user_login_def Let_def set_keys_Map_set)
  show "snd (disconnect H s) =
          [Io_emit (Online_users (Map_keys (onlineUsers (fst (disconnect H s))))),
           Console_log (User_disconnected H)]"
    by (rule disconnect_effects)
next
  assume "first_bound H (onlineUsers s) = Some A"
  then show "A \<notin> set (Map_keys (onlineUsers (fst (disconnect H s))))"
    by (simp add: disconnect_registry set_keys_Map_delete)
next
  assume a: "Map_get A (onlineUsers s) = Some H \<and>
             (\<forall>u. (u, H) \<in> set (onlineUsers s) \<longrightarrow> u = A)"
  then have "(A, H) \<in> set (onlineUsers s)"
    by (simp add: Map_get_in_set)
  then have "H \<in> snd ` set (onlineUsers s)"
    by force
  then have "first_bound H (onlineUsers s) \<noteq> None"
    by (simp add: first_bound_None_iff)
  then obtain u where u: "first_bound H (onlineUsers s) = Some u"
    by blast
  with a have "u = A"
    using first_bound_Some by blast
  with u show "A \<notin> set (Map_keys (onlineUsers (fst (disconnect H s))))"
    by (simp add: disconnect_registry set_keys_Map_delete)
next
  assume a: "Map_get A (onlineUsers s) = Some H' \<and> H' \<noteq> H"
  then have inkeys: "A \<in> set (Map_keys (onlineUsers s))"
    by (simp add: in_keys_iff)
  show "A \<in> set (Map_keys (onlineUsers (fst (disconnect H s))))"
  proof (cases "first_bound H (onlineUsers s)")
    case None
    with inkeys show ?thesis by (simp add: disconnect_registry)
  next
    case (Some u)
    have "u \<noteq> A"
    proof
      assume "u = A"
      with Some have "(A, H) \<in> set (onlineUsers s)" by (simp add: first_bound_Some)
      with assms have "Map_get A (onlineUsers s) = Some H" by (rule Map_wf_get)
      with a show False by auto
    qed
    with Some inkeys show ?thesis
      by (simp add: disconnect_registry set_keys_Map_delete)
  qed
qed

theorem presence_snapshot_login_disconnect_witness:
  "Map_wf (onlineUsers (fst (run [User_login ''G'' 3, User_login ''H'' 1] init)))
   \<and> first_bound ''H'' (onlineUsers (fst (run [User_login ''G'' 3, User_login ''H'' 1] init))) =
       Some 1
   \<and> Map_get 3 (onlineUsers (fst (run [User_login ''G'' 3, User_login ''H'' 1] init))) =
       Some ''G''
   \<and> snd (user_login ''H'' 1 (fst (user_login ''G'' 3 init))) = [Io_emit (Online_users [3, 1])]
   \<and> snd (disconnect ''H'' (fst (run [User_login ''G'' 3, User_login ''H'' 1] init))) =
       [Io_emit (Online_users [3]), Console_log (User_disconnected ''H'')]
   \<and> 1 \<notin> set (Map_keys (onlineUsers
       (fst (disconnect ''H'' (fst (run [User_login ''G'' 3, User_login ''H'' 1] init))))))
   \<and> 3 \<in> set (Map_keys (onlineUsers
       (fst (disconnect ''H'' (fst (run [User_login ''G'' 3, User_login ''H'' 1] init))))))"
proof -
  let ?s = "fst (run [User_login ''G'' 3, User_login ''H'' 1] init)"
  have reg: "onlineUsers ?s = [(3, ''G''), (1, ''H'')]"
    by (simp add: step_def user_login_def init_def Let_def)
  have wf: "Map_wf (onlineUsers ?s)"
    unfolding reg by (simp add: Map_wf_def)
  have fb: "first_bound ''H'' (onlineUsers ?s) = Some 1"
    unfolding reg by (simp add: first_bound_def)
  have only: "Map_get 1 (onlineUsers ?s) = Some ''H'' \<and>
      (\<forall>u. (u, ''H'') \<in> set (onlineUsers ?s) \<longrightarrow> u = 1)"
    unfolding reg by simp
  have other: "Map_get 3 (onlineUsers ?s) = Some ''G'' \<and> ''G'' \<noteq> ''H''"
    unfolding reg by simp
  note inst = presence_snapshot_login_disconnect [OF wf, where H = "''H''"]
  have "1 \<notin> set (Map_keys (onlineUsers (fst (disconnect ''H'' ?s))))"
    using inst [where A = 1] fb by blast
  moreover have "1 \<notin> set (Map_keys (onlineUsers (fst (disconnect ''H'' ?s))))"
    using inst [where A = 1] only by blast
  moreover have "3 \<in> set (Map_keys (onlineUsers (fst (disconnect ''H'' ?s))))"
    using inst [where A = 3 and H' = "''G''"] other by blast
  moreover have "snd (disconnect ''H'' ?s) =
      [Io_emit (Online_users [3]), Console_log (User_disconnected ''H'')]"
    by (simp add: step_def user_login_def init_def disconnect_def Map_entries_def
        Map_keys_def Let_def)
  moreover have "snd (user_login ''H'' 1 (fst (user_login ''G'' 3 init))) =
      [Io_emit (Online_users [3, 1])]"
    by (simp add: step_def user_login_def init_def Map_keys_def Let_def)
  ultimately show ?thesis
    using wf fb other by simp
qed

text \<open>
  C6 as the specification states it fails: socket \<open>H\<close> logs in as identity 2 and then as
  identity 1, and disconnects. Identity 1 is bound to \<open>H\<close> and to no other handle, yet the
  broadcast of the disconnect still lists it: the loop has deleted identity 2 and stopped.
\<close>

theorem presence_snapshot_stale_counterexample:
  "Map_get 1 (onlineUsers (fst (run [User_login ''H'' 2, User_login ''H'' 1] init))) = Some ''H''
   \<and> snd (disconnect ''H'' (fst (run [User_login ''H'' 2, User_login ''H'' 1] init))) =
       [Io_emit (Online_users [1]), Console_log (User_disconnected ''H'')]"
  by (simp add: step_def init_def user_login_def disconnect_def Map_entries_def Map_keys_def
      Let_def)

text \<open>
  C7, as the handler has it. A typing notification that carries a payload object changes
  nothing in the state (registry, table, pending statements) and does not fail. If the
  registry has an entry for the receiver, the only effect is one \<^verbatim>\<open>user_typing\<close> event with
  the sender id, addressed to that entry's handle; if it has none, there is no effect at
  all. In a running process the turn of the event loop ends the same way, and the process
  keeps running.
\<close>

theorem typing_forwards_or_drops:
  assumes "handles_truthy (onlineUsers s)"
  shows "typing sock (Some td) s =
           Inr (s, case Map_get (ty_receiverId td) (onlineUsers s) of
                     Some h \<Rightarrow> [Io_to_emit h (User_typing (ty_senderId td))]
                   | None \<Rightarrow> [])
       \<and> (uncaught s = None \<longrightarrow>
            step (Typing sock (Some td)) s =
              (s, case Map_get (ty_receiverId td) (onlineUsers s) of
                    Some h \<Rightarrow> [Io_to_emit h (User_typing (ty_senderId td))]
                  | None \<Rightarrow> []))"
proof -
  have "typing sock (Some td) s =
      Inr (s, case Map_get (ty_receiverId td) (onlineUsers s) of
                Some h \<Rightarrow> [Io_to_emit h (User_typing (ty_senderId td))]
              | None \<Rightarrow> [])"
    using truthy_get [OF assms, of "ty_receiverId td"]
    by (auto simp: typing_def Let_def split: option.splits)
  then show ?thesis
    by (simp add: step_def)
qed

theorem typing_forwards_or_drops_witness:
  "handles_truthy (onlineUsers
      \<lparr>onlineUsers = [(9, ''h2'')], db = \<lparr>messages = [], sqlite_sequence = 0\<rparr>,
       pending = [], uncaught = None\<rparr>)
   \<and> uncaught
      \<lparr>onlineUsers = [(9, ''h2'')], db = \<lparr>messages = [], sqlite_sequence = 0\<rparr>,
       pending = [], uncaught = None\<rparr> = None
   \<and> step (Typing ''s1'' (Some \<lparr>ty_senderId = 5, ty_receiverId = 9\<rparr>))
      \<lparr>onlineUsers = [(9, ''h2'')], db = \<lparr>messages = [], sqlite_sequence = 0\<rparr>,
       pending = [], uncaught = None\<rparr> =
     (\<lparr>onlineUsers = [(9, ''h2'')], db = \<lparr>messages = [], sqlite_sequence = 0\<rparr>,
       pending = [], uncaught = None\<rparr>,
      [Io_to_emit ''h2'' (User_typing 5)])
   \<and> typing ''s1'' (Some \<lparr>ty_senderId = 5, ty_receiverId = 4\<rparr>)
      \<lparr>onlineUsers = [(9, ''h2'')], db = \<lparr>messages = [], sqlite_sequence = 0\<rparr>,
       pending = [], uncaught = None\<rparr> =
     Inr (\<lparr>onlineUsers = [(9, ''h2'')], db = \<lparr>messages = [], sqlite_sequence = 0\<rparr>,
           pending = [], uncaught = None\<rparr>,
          [])"
proof -
  let ?s = "\<lparr>onlineUsers = [(9, ''h2'')], db = \<lparr>messages = [], sqlite_sequence = 0\<rparr>,
             pending = [], uncaught = None\<rparr>"
  have tr: "handles_truthy (onlineUsers ?s)"
    by (simp add: handles_truthy_def)
  have alive: "uncaught ?s = None"
    by simp
  have "step (Typing ''s1'' (Some \<lparr>ty_senderId = 5, ty_receiverId = 9\<rparr>)) ?s =
      (?s, [Io_to_emit ''h2'' (User_typing 5)])"
    using typing_forwards_or_drops [OF tr, where sock = "''s1''"
        and td = "\<lparr>ty_senderId = 5, ty_receiverId = 9\<rparr>"] alive
    by simp
  moreover have "typing ''s1'' (Some \<lparr>ty_senderId = 5, ty_receiverId = 4\<rparr>) ?s = Inr (?s, [])"
    using typing_forwards_or_drops [OF tr, where sock = "''s1''"
        and td = "\<lparr>ty_senderId = 5, ty_receiverId = 4\<rparr>"]
    by simp
  ultimately show ?thesis
    using tr by simp
qed

text \<open>
  C7 as the specification states it fails: a \<^verbatim>\<open>typing\<close> event with no payload makes the
  handler throw at \<^verbatim>\<open>data.receiverId\<close>, and the uncaught TypeError ends the process.
\<close>

theorem typing_without_payload_counterexample:
  "typing ''s1'' None init = Inl TypeError
   \<and> uncaught (fst (run [Typing ''s1'' None] init)) = Some TypeError"
  by (simp add: typing_def step_def init_def)

text \<open>
  C8. Delivery happens only in the success continuation of the persistence call. In every
  run of the event loop, from every state, each delivery event that was emitted has its
  row (same sender, same payload, other payload column NULL) among the rows the run has
  added to the table; as this holds for every run, it holds at the end of the step that
  emitted the event. A callback emits a delivery event only when it was called without
  an error, and the only step that emits one is a completion of a pending INSERT that the
  store has executed.
\<close>

theorem delivery_only_after_persist:
  "deliveries_persisted (snd (run evs s)) (new_rows s (fst (run evs s)))
   \<and> (list_ex is_delivery (callback job err m) \<longrightarrow> err = None)
   \<and> (list_ex is_delivery (snd (step e s)) \<longrightarrow>
        (\<exists>i now. e = Db_complete i (DbOk now) \<and> i < length (pending s)))"
proof (intro conjI impI)
  obtain new where "messages (db (fst (run evs s))) = messages (db s) @ new"
    and "deliveries_persisted (snd (run evs s)) new"
    using run_rows by blast
  then show "deliveries_persisted (snd (run evs s)) (new_rows s (fst (run evs s)))"
    by (simp add: new_rows_def)
next
  assume "list_ex is_delivery (callback job err m)"
  then show "err = None" by (rule callback_delivery_success)
next
  assume "list_ex is_delivery (snd (step e s))"
  then show "\<exists>i now. e = Db_complete i (DbOk now) \<and> i < length (pending s)"
    by (rule step_delivery_source)
qed

theorem delivery_only_after_persist_witness:
  "list_ex is_delivery (snd (run [User_login ''h2'' 9,
       Send_message ''s1''
         (Some \<lparr>md_senderId = 5, md_receiverId = 9, md_message = Some ''hi'',
           md_timestamp = ''t1'', md_imageData = None\<rparr>),
       Db_complete 0 (DbOk 7)] init))
   \<and> deliveries_persisted
       (snd (run [User_login ''h2'' 9,
          Send_message ''s1''
            (Some \<lparr>md_senderId = 5, md_receiverId = 9, md_message = Some ''hi'',
              md_timestamp = ''t1'', md_imageData = None\<rparr>),
          Db_complete 0 (DbOk 7)] init))
       [\<lparr>row_id = 1, sender_id = 5, receiver_id = 9, message = Some ''hi'', image_data = None,
         created_at = 7\<rparr>]
   \<and> list_ex is_delivery
       (callback (Run_insert_message ''s1''
          \<lparr>md_senderId = 5, md_receiverId = 9, md_message = Some ''hi'',
            md_timestamp = ''t1'', md_imageData = None\<rparr>)
        None [(9, ''h2'')])
   \<and> list_ex is_delivery
       (snd (step (Db_complete 0 (DbOk 7))
          \<lparr>onlineUsers = [(9, ''h2'')], db = \<lparr>messages = [], sqlite_sequence = 0\<rparr>,
           pending = [Run_insert_message ''s1''
             \<lparr>md_senderId = 5, md_receiverId = 9, md_message = Some ''hi'',
               md_timestamp = ''t1'', md_imageData = None\<rparr>], uncaught = None\<rparr>))
   \<and> (\<exists>i now. Db_complete 0 (DbOk 7) = Db_complete i (DbOk now) \<and>
         i < length (pending
          \<lparr>onlineUsers = [(9, ''h2'')], db = \<lparr>messages = [], sqlite_sequence = 0\<rparr>,
           pending = [Run_insert_message ''s1''
             \<lparr>md_senderId = 5, md_receiverId = 9, md_message = Some ''hi'',
               md_timestamp = ''t1'', md_imageData = None\<rparr>], uncaught = None\<rparr>))"
proof -
  let ?md = "\<lparr>md_senderId = 5, md_receiverId = 9, md_message = Some ''hi'',
              md_timestamp = ''t1'', md_imageData = None\<rparr>"
  let ?evs = "[User_login ''h2'' 9, Send_message ''s1'' (Some ?md), Db_complete 0 (DbOk 7)]"
  let ?s = "\<lparr>onlineUsers = [(9, ''h2'')], db = \<lparr>messages = [], sqlite_sequence = 0\<rparr>,
             pending = [Run_insert_message ''s1'' ?md], uncaught = None\<rparr>"
  have rows: "new_rows init (fst (run ?evs init)) =
      [\<lparr>row_id = 1, sender_id = 5, receiver_id = 9, message = Some ''hi'', image_data = None,
        created_at = 7\<rparr>]"
    by (simp add: step_def new_rows_def init_def user_login_def send_message_def db_complete_def
        insert_message_def Let_def)
  have emitted: "list_ex is_delivery (snd (run ?evs init))"
    by (simp add: step_def init_def user_login_def send_message_def db_complete_def
        send_message_callback_def Let_def)
  have cb: "list_ex is_delivery (callback (Run_insert_message ''s1'' ?md) None [(9, ''h2'')])"
    by (simp add: send_message_callback_def)
  have st: "list_ex is_delivery (snd (step (Db_complete 0 (DbOk 7)) ?s))"
    by (simp add: step_def db_complete_def send_message_callback_def)
  have "deliveries_persisted (snd (run ?evs init)) (new_rows init (fst (run ?evs init)))"
    using delivery_only_after_persist [where evs = ?evs and s = init] by blast
  moreover have "None = (None :: db_error option)"
    using delivery_only_after_persist
      [where job = "Run_insert_message ''s1'' ?md" and err = None and m = "[(9, ''h2'')]"] cb
    by blast
  moreover have "\<exists>i now. Db_complete 0 (DbOk 7) = Db_complete i (DbOk now) \<and>
      i < length (pending ?s)"
    using delivery_only_after_persist [where e = "Db_complete 0 (DbOk 7)" and s = ?s] st
    by blast
  ultimately show ?thesis
    using rows emitted cb st by simp
qed

text \<open>
  C9. A disconnect of a socket whose id is the handle of no registry entry (in particular
  of a socket that never logged in) leaves the whole state as it was and raises nothing:
  the handler broadcasts the unchanged list of online users and writes its console line.
\<close>

theorem disconnect_unbound_noop:
  assumes "sock \<notin> snd ` set (onlineUsers s)"
  shows "disconnect sock s =
     (s, [Io_emit (Online_users (Map_keys (onlineUsers s))), Console_log (User_disconnected sock)])"
  using assms
  by (simp add: disconnect_def disconnect_loop_first_bound Map_entries_def
      first_bound_None_iff [THEN iffD2])

theorem disconnect_unbound_noop_witness:
  "''h3'' \<notin> snd ` set (onlineUsers
      \<lparr>onlineUsers = [(9, ''h2'')], db = \<lparr>messages = [], sqlite_sequence = 0\<rparr>,
        pending = [], uncaught = None\<rparr>)
   \<and> disconnect ''h3''
      \<lparr>onlineUsers = [(9, ''h2'')], db = \<lparr>messages = [], sqlite_sequence = 0\<rparr>,
        pending = [], uncaught = None\<rparr> =
     (\<lparr>onlineUsers = [(9, ''h2'')], db = \<lparr>messages = [], sqlite_sequence = 0\<rparr>,
       pending = [], uncaught = None\<rparr>,
      [Io_emit (Online_users [9]), Console_log (User_disconnected ''h3'')])"
  using disconnect_unbound_noop [of "''h3''"
      "\<lparr>onlineUsers = [(9, ''h2'')], db = \<lparr>messages = [], sqlite_sequence = 0\<rparr>,
        pending = [], uncaught = None\<rparr>"]
  by (simp add: Map_keys_def)

text \<open>
  C10. A disconnect removes at most one registry entry: the first one, in insertion
  order, whose handle is the id of the socket that went away. Every other identity keeps
  its entry, also one that is bound to the same handle.
\<close>

theorem disconnect_removes_first_only:
  assumes "Map_wf (onlineUsers s)"
  shows "length (onlineUsers s) \<le> Suc (length (onlineUsers (fst (disconnect sock s))))
       \<and> (\<forall>pre u post. onlineUsers s = pre @ (u, sock) # post \<and> sock \<notin> snd ` set pre \<longrightarrow>
            onlineUsers (fst (disconnect sock s)) = pre @ post)
       \<and> (\<forall>u u'. first_bound sock (onlineUsers s) = Some u \<and> u' \<noteq> u \<longrightarrow>
            Map_get u' (onlineUsers (fst (disconnect sock s))) = Map_get u' (onlineUsers s))"
proof (intro conjI allI impI)
  show "length (onlineUsers s) \<le> Suc (length (onlineUsers (fst (disconnect sock s))))"
    using length_Map_delete [OF assms]
    by (simp add: disconnect_registry split: option.splits)
next
  fix pre u post
  assume a: "onlineUsers s = pre @ (u, sock) # post \<and> sock \<notin> snd ` set pre"
  then have "first_bound sock (onlineUsers s) = Some u"
    by (simp add: first_bound_split)
  moreover have "Map_delete u (onlineUsers s) = pre @ post"
    using a assms Map_delete_split [of pre u sock post] by simp
  ultimately show "onlineUsers (fst (disconnect sock s)) = pre @ post"
    by (simp add: disconnect_registry)
next
  fix u u'
  assume "first_bound sock (onlineUsers s) = Some u \<and> u' \<noteq> u"
  then show "Map_get u' (onlineUsers (fst (disconnect sock s))) = Map_get u' (onlineUsers s)"
    by (simp add: disconnect_registry Map_get_delete)
qed

theorem disconnect_removes_first_only_witness:
  "Map_wf (onlineUsers
      \<lparr>onlineUsers = [(3, ''G''), (1, ''H''), (2, ''H'')],
       db = \<lparr>messages = [], sqlite_sequence = 0\<rparr>, pending = [], uncaught = None\<rparr>)
   \<and> first_bound ''H'' (onlineUsers
      \<lparr>onlineUsers = [(3, ''G''), (1, ''H''), (2, ''H'')],
       db = \<lparr>messages = [], sqlite_sequence = 0\<rparr>, pending = [], uncaught = None\<rparr>) = Some 1
   \<and> onlineUsers (fst (disconnect ''H''
      \<lparr>onlineUsers = [(3, ''G''), (1, ''H''), (2, ''H'')],
       db = \<lparr>messages = [], sqlite_sequence = 0\<rparr>,
         pending = [], uncaught = None\<rparr>)) = [(3, ''G''), (2, ''H'')]
   \<and> Map_get 2 (onlineUsers (fst (disconnect ''H''
      \<lparr>onlineUsers = [(3, ''G''), (1, ''H''), (2, ''H'')],
       db = \<lparr>messages = [], sqlite_sequence = 0\<rparr>, pending = [], uncaught = None\<rparr>))) = Some ''H''"
proof -
  let ?s = "\<lparr>onlineUsers = [(3, ''G''), (1, ''H''), (2, ''H'')],
             db = \<lparr>messages = [], sqlite_sequence = 0\<rparr>, pending = [], uncaught = None\<rparr>"
  have wf: "Map_wf (onlineUsers ?s)"
    by (simp add: Map_wf_def)
  have fb: "first_bound ''H'' (onlineUsers ?s) = Some 1"
    by (simp add: first_bound_def)
  have "onlineUsers (fst (disconnect ''H'' ?s)) = [(3, ''G'')] @ [(2, ''H'')]"
    using disconnect_removes_first_only [OF wf, of "''H''", THEN conjunct2, THEN conjunct1,
        rule_format, where pre = "[(3, ''G'')]" and u = 1 and post = "[(2, ''H'')]"]
    by simp
  moreover have "Map_get 2 (onlineUsers (fst (disconnect ''H'' ?s))) = Some ''H''"
    using disconnect_removes_first_only [OF wf, of "''H''", THEN conjunct2, THEN conjunct2,
        rule_format, where u = 1 and u' = 2] fb
    by simp
  ultimately show ?thesis
    using wf fb by simp
qed

end
